theory Spec2Isabelle
  imports Main "HOL-Library.AList"
begin

section \<open>Values handled by Ahu\<close>

text \<open>
  \<open>Ahu.fetch_data\<close> reads JSON bodies and \<open>Ahu.copy_data\<close> reads the documents stored
  from them, so the values are the ones a JSON body decodes to in Python: \<open>None\<close>,
  \<open>bool\<close>, \<open>int\<close>, \<open>str\<close>, \<open>list\<close> and \<open>dict\<close> with string keys. A \<open>dict\<close> is an
  association list in insertion order whose lookup takes the first binding of a key.
  Floating point numbers are left out, and so is the \<open>_id\<close> that the store adds to a
  document, which neither method reads. A \<open>char\<close> stands for one character of a Python
  \<open>str\<close>, with code point below 256.
\<close>

datatype json =
    JNull
  | JBool bool
  | JInt int
  | JStr string
  | JList "json list"
  | JObj "(string \<times> json) list"

type_synonym document = "(string \<times> json) list"

text \<open>The exceptions that the two methods can meet.\<close>

datatype py_error = AttributeError | KeyError | IndexError | TypeError

subsection \<open>Python operations on these values\<close>

text \<open>\<open>x.get(k, d)\<close>: only a \<open>dict\<close> has the method.\<close>

fun py_get :: "json \<Rightarrow> string \<Rightarrow> json \<Rightarrow> py_error + json" where
  "py_get (JObj kvs) k d = Inr (case map_of kvs k of None \<Rightarrow> d | Some v \<Rightarrow> v)"
| "py_get _ k d = Inl AttributeError"

text \<open>\<open>x[k]\<close> with a string key \<open>k\<close>.\<close>

fun py_getitem :: "json \<Rightarrow> string \<Rightarrow> py_error + json" where
  "py_getitem (JObj kvs) k = (case map_of kvs k of None \<Rightarrow> Inl KeyError | Some v \<Rightarrow> Inr v)"
| "py_getitem _ k = Inl TypeError"

text \<open>
  The elements that \<open>for e in x\<close> visits: the items of a list, the characters of a
  string, the keys of a dict; anything else is not iterable.
\<close>

fun py_iter :: "json \<Rightarrow> py_error + json list" where
  "py_iter (JList xs) = Inr xs"
| "py_iter (JStr s) = Inr (map (\<lambda>c. JStr [c]) s)"
| "py_iter (JObj kvs) = Inr (map (\<lambda>kv. JStr (fst kv)) kvs)"
| "py_iter _ = Inl TypeError"

text \<open>Truth value of an object, as \<open>if x\<close>, \<open>not x\<close>, \<open>x and y\<close> test it.\<close>

fun py_truthy :: "json \<Rightarrow> bool" where
  "py_truthy JNull = False"
| "py_truthy (JBool b) = b"
| "py_truthy (JInt n) = (n \<noteq> 0)"
| "py_truthy (JStr s) = (s \<noteq> [])"
| "py_truthy (JList xs) = (xs \<noteq> [])"
| "py_truthy (JObj kvs) = (kvs \<noteq> [])"

text \<open>\<open>n >= x\<close> for an int \<open>n\<close>: defined against numbers (\<open>bool\<close> is a subclass of \<open>int\<close>).\<close>

fun py_int_ge :: "int \<Rightarrow> json \<Rightarrow> py_error + bool" where
  "py_int_ge n (JInt t) = Inr (n \<ge> t)"
| "py_int_ge n (JBool b) = Inr (n \<ge> (if b then 1 else 0))"
| "py_int_ge n _ = Inl TypeError"

section \<open>The object and its collaborators\<close>

text \<open>
  The fields of an \<open>Ahu\<close> object that the methods use. The two MongoDB collections are
  the lists of their documents in insertion order: \<open>insert_one\<close> and \<open>insert_many\<close>
  append. \<open>requested\<close> is the log of the \<open>page\<close> parameters of the requests sent.
\<close>

record ahu =
  max_results :: int
  original_collection :: "document list"
  filtered_collection :: "document list"
  requested :: "int list"

text \<open>
  What \<open>requests.get\<close>, \<open>raise_for_status\<close> and \<open>response.json\<close> give for one request:
  a \<open>RequestException\<close>, or the decoded body.
\<close>

datatype response = RequestException | Body json

section \<open>fetch\_data\<close>

text \<open>
  \<open>any(source.get("source") == "scholar" for source in ids)\<close>, which stops at the first
  hit.
\<close>

fun any_scholar :: "json list \<Rightarrow> py_error + bool" where
  "any_scholar [] = Inr False"
| "any_scholar (source # rest) =
     (case py_get source ''source'' JNull of
        Inl e \<Rightarrow> Inl e
      | Inr v \<Rightarrow> if v = JStr ''scholar'' then Inr True else any_scholar rest)"

text \<open>
  The body of \<open>for entry in aff["data"]\<close>: the entry is stored, with
  \<open>entry["keep_abstract"] = False\<close>, when no external id is a scholar one. The
  assignment to an item with a string key is defined on a dict and a \<open>TypeError\<close> on
  any other value; no other value gets that far, as \<open>get\<close> has raised before.
\<close>

fun fetch_entry :: "json \<Rightarrow> document list \<Rightarrow> py_error option \<times> document list" where
  "fetch_entry entry coll =
     (case py_get entry ''external_ids'' (JList []) of
        Inl e \<Rightarrow> (Some e, coll)
      | Inr ids \<Rightarrow>
         (case py_iter ids of
            Inl e \<Rightarrow> (Some e, coll)
          | Inr sources \<Rightarrow>
             (case any_scholar sources of
                Inl e \<Rightarrow> (Some e, coll)
              | Inr found \<Rightarrow>
                  if found then (None, coll)
                  else (case entry of
                          JObj kvs \<Rightarrow>
                            (None, coll @ [AList.update ''keep_abstract'' (JBool False) kvs])
                        | _ \<Rightarrow> (Some TypeError, coll)))))"

fun fetch_entries :: "json list \<Rightarrow> document list \<Rightarrow> py_error option \<times> document list" where
  "fetch_entries [] coll = (None, coll)"
| "fetch_entries (entry # rest) coll =
     (case fetch_entry entry coll of
        (Some e, coll') \<Rightarrow> (Some e, coll')
      | (None, coll') \<Rightarrow> fetch_entries rest coll')"

text \<open>
  The statements between \<open>response.json()\<close> and \<open>page += 1\<close>. The result says whether
  the loop breaks, or which exception leaves it; the documents stored before an
  exception stay stored.
\<close>

definition fetch_page :: "json \<Rightarrow> int \<Rightarrow> ahu \<Rightarrow> (py_error + bool) \<times> ahu" where
  "fetch_page aff page s =
     (case py_getitem aff ''total_results'' of
        Inl e \<Rightarrow> (Inl e, s)
      | Inr total_results \<Rightarrow>
         (case py_getitem aff ''data'' of
            Inl e \<Rightarrow> (Inl e, s)
          | Inr data \<Rightarrow>
             (case py_iter data of
                Inl e \<Rightarrow> (Inl e, s)
              | Inr entries \<Rightarrow>
                 (case fetch_entries entries (original_collection s) of
                    (Some e, coll) \<Rightarrow> (Inl e, s\<lparr>original_collection := coll\<rparr>)
                  | (None, coll) \<Rightarrow>
                      (py_int_ge (page * max_results s) total_results,
                       s\<lparr>original_collection := coll\<rparr>)))))"

text \<open>
  The \<open>while True\<close> loop. A \<open>RequestException\<close> is caught and ends the loop normally;
  any other exception leaves the method. The loop has no bound of its own, so the
  result is \<open>None\<close> where it runs forever. The pause between two requests and the
  lines printed are left out.
\<close>

partial_function (option) fetch_loop ::
  "(int \<Rightarrow> int \<Rightarrow> response) \<Rightarrow> int \<Rightarrow> ahu \<Rightarrow> (py_error option \<times> ahu) option" where
  "fetch_loop server page s =
     (let s1 = s\<lparr>requested := requested s @ [page]\<rparr> in
      case server page (max_results s) of
        RequestException \<Rightarrow> Some (None, s1)
      | Body aff \<Rightarrow>
         (case fetch_page aff page s1 of
            (Inl e, s2) \<Rightarrow> Some (Some e, s2)
          | (Inr stop, s2) \<Rightarrow>
              if stop then Some (None, s2) else fetch_loop server (page + 1) s2))"

declare fetch_loop.simps [code]

definition fetch_data :: "(int \<Rightarrow> int \<Rightarrow> response) \<Rightarrow> ahu \<Rightarrow> (py_error option \<times> ahu) option" where
  "fetch_data server s = fetch_loop server 1 s"

section \<open>copy\_data\<close>

subsection \<open>More Python operations\<close>

text \<open>\<open>document.get(k, d)\<close> on a stored document, which is a \<open>dict\<close>.\<close>

definition doc_get :: "document \<Rightarrow> string \<Rightarrow> json \<Rightarrow> json" where
  "doc_get document k d = (case map_of document k of None \<Rightarrow> d | Some v \<Rightarrow> v)"

text \<open>\<open>sub in s\<close> on strings: \<open>sub\<close> occurs in \<open>s\<close> as a contiguous part.\<close>

fun py_substring :: "string \<Rightarrow> string \<Rightarrow> bool" where
  "py_substring sub [] = (sub = [])"
| "py_substring sub (c # cs) = (take (length sub) (c # cs) = sub \<or> py_substring sub cs)"

text \<open>
  \<open>k in x\<close> for a string \<open>k\<close>: a key of a dict, an item of a list, a part of a
  string.
\<close>

fun py_in :: "string \<Rightarrow> json \<Rightarrow> py_error + bool" where
  "py_in k (JObj kvs) = Inr (map_of kvs k \<noteq> None)"
| "py_in k (JList xs) = Inr (JStr k \<in> set xs)"
| "py_in k (JStr s) = Inr (py_substring k s)"
| "py_in k _ = Inl TypeError"

text \<open>\<open>x[0]\<close>. The keys of a dict are strings here, so \<open>0\<close> is never one.\<close>

fun py_first :: "json \<Rightarrow> py_error + json" where
  "py_first (JList []) = Inl IndexError"
| "py_first (JList (x # xs)) = Inr x"
| "py_first (JStr []) = Inl IndexError"
| "py_first (JStr (c # cs)) = Inr (JStr [c])"
| "py_first (JObj kvs) = Inl KeyError"
| "py_first _ = Inl TypeError"

text \<open>
  \<open>x[:3]\<close>, defined on sequences. (On a dict Python raises \<open>TypeError\<close> up to
  version 3.11 and \<open>KeyError\<close> from 3.12 on; the first is taken here.)
\<close>

fun py_take3 :: "json \<Rightarrow> py_error + json" where
  "py_take3 (JList xs) = Inr (JList (take 3 xs))"
| "py_take3 (JStr s) = Inr (JStr (take 3 s))"
| "py_take3 _ = Inl TypeError"

text \<open>
  The characters that \<open>str.split()\<close> takes as separators, among the code points below
  256: tab to carriage return, the four information separators, the space, NEL and the
  no-break space.
\<close>

definition is_space :: "char \<Rightarrow> bool" where
  "is_space c = (c \<in> set [CHR 0x09, CHR 0x0A, CHR 0x0B, CHR 0x0C, CHR 0x0D,
                           CHR 0x1C, CHR 0x1D, CHR 0x1E, CHR 0x1F, CHR 0x20,
                           CHR 0x85, CHR 0xA0])"

text \<open>
  \<open>s.split()\<close>: the maximal runs of characters that are not separators, left to
  right; \<open>cur\<close> is the run being read.
\<close>

fun split_from :: "string \<Rightarrow> string \<Rightarrow> string list" where
  "split_from cur [] = (if cur = [] then [] else [cur])"
| "split_from cur (c # cs) =
     (if is_space c then (if cur = [] then split_from [] cs else cur # split_from [] cs)
      else split_from (cur @ [c]) cs)"

definition py_split :: "string \<Rightarrow> string list" where
  "py_split s = split_from [] s"

text \<open>\<open>sep.join(xs)\<close>.\<close>

fun py_join :: "string \<Rightarrow> string list \<Rightarrow> string" where
  "py_join sep [] = []"
| "py_join sep [x] = x"
| "py_join sep (x # y # ys) = x @ sep @ py_join sep (y # ys)"

text \<open>
  What an f-string puts for \<open>{x}\<close>, that is \<open>str(x)\<close>. The text of a list or of a dict
  is left to the parameter \<open>repr\<close>.
\<close>

fun dec_nat :: "nat \<Rightarrow> string" where
  "dec_nat n =
     (if n < 10 then [''0123456789'' ! n]
      else dec_nat (n div 10) @ [''0123456789'' ! (n mod 10)])"

fun py_str :: "(json \<Rightarrow> string) \<Rightarrow> json \<Rightarrow> string" where
  "py_str repr JNull = ''None''"
| "py_str repr (JBool b) = (if b then ''True'' else ''False'')"
| "py_str repr (JInt n) = (if n < 0 then ''-'' @ dec_nat (nat (- n)) else dec_nat (nat n))"
| "py_str repr (JStr s) = s"
| "py_str repr v = repr v"

subsection \<open>The fields of the new document\<close>

text \<open>
  \<open>abstract = document.get("abstract", "")\<close>, emptied when \<open>keep_abstract\<close>, which is
  \<open>True\<close> when the document has no such key, is false.
\<close>

definition derive_abstract :: "document \<Rightarrow> json" where
  "derive_abstract document =
     (let abstract = doc_get document ''abstract'' (JStr '''');
          keep_abstract = doc_get document ''keep_abstract'' (JBool True)
      in if \<not> py_truthy keep_abstract then JStr '''' else abstract)"

text \<open>
  \<open>next((entry.get("name", "") for entry in source_name if "name" in entry), "")\<close>:
  the generator is read up to its first item only.
\<close>

fun first_name :: "json list \<Rightarrow> py_error + json" where
  "first_name [] = Inr (JStr '''')"
| "first_name (entry # rest) =
     (case py_in ''name'' entry of
        Inl e \<Rightarrow> Inl e
      | Inr has \<Rightarrow> if has then py_get entry ''name'' (JStr '''') else first_name rest)"

definition derive_journal :: "document \<Rightarrow> py_error + json" where
  "derive_journal document =
     (case py_get (doc_get document ''source'' (JObj [])) ''names'' (JObj []) of
        Inl e \<Rightarrow> Inl e
      | Inr source_name \<Rightarrow>
         (case py_iter source_name of
            Inl e \<Rightarrow> Inl e
          | Inr entries \<Rightarrow> first_name entries))"

text \<open>
  The \<open>try\<close> block for publisher and country, then its \<open>except AttributeError\<close>
  handler.
\<close>

definition publisher_try :: "document \<Rightarrow> py_error + json \<times> json" where
  "publisher_try document =
     (let source_info = doc_get document ''source'' (JObj []) in
      case source_info of
        JObj kvs \<Rightarrow>
          (case map_of kvs ''publisher'' of
             None \<Rightarrow> Inr (JStr '''', JStr '''')
           | Some publisher_info \<Rightarrow>
              (case py_get publisher_info ''name'' (JStr '''') of
                 Inl e \<Rightarrow> Inl e
               | Inr publisher \<Rightarrow>
                  (case py_get publisher_info ''country_code'' (JStr '''') of
                     Inl e \<Rightarrow> Inl e
                   | Inr country \<Rightarrow> Inr (publisher, country))))
      | _ \<Rightarrow> Inr (JStr '''', JStr ''''))"

definition derive_publisher :: "document \<Rightarrow> py_error + json \<times> json" where
  "derive_publisher document =
     (case publisher_try document of
        Inl AttributeError \<Rightarrow> Inr (JStr '''', JStr '''')
      | Inl e \<Rightarrow> Inl e
      | Inr pc \<Rightarrow> Inr pc)"

text \<open>\<open>document.get('titles', [{}])[0].get(k, "")\<close>, for the title and the language.\<close>

definition titles_field :: "document \<Rightarrow> string \<Rightarrow> py_error + json" where
  "titles_field document k =
     (case py_first (doc_get document ''titles'' (JList [JObj []])) of
        Inl e \<Rightarrow> Inl e
      | Inr t \<Rightarrow> py_get t k (JStr ''''))"

text \<open>
  The body of \<open>for author in authors_list\<close>. \<open>split\<close> is a method of \<open>str\<close> only. A
  part is never empty, so \<open>name[0]\<close> is its first character.
\<close>

definition format_author :: "json \<Rightarrow> py_error + string" where
  "format_author author =
     (case py_get author ''full_name'' (JStr '''') of
        Inl e \<Rightarrow> Inl e
      | Inr v \<Rightarrow>
         (case (if py_truthy v then v else JStr '''') of
            JStr full_name \<Rightarrow>
              (let name_parts = py_split full_name in
               if length name_parts > 1
               then Inr (concat (map (take 1) (butlast name_parts)) @ '', '' @ last name_parts)
               else Inr full_name)
          | _ \<Rightarrow> Inl AttributeError))"

fun format_authors :: "json list \<Rightarrow> py_error + string list" where
  "format_authors [] = Inr []"
| "format_authors (author # rest) =
     (case format_author author of
        Inl e \<Rightarrow> Inl e
      | Inr formatted_name \<Rightarrow>
         (case format_authors rest of
            Inl e \<Rightarrow> Inl e
          | Inr formatted \<Rightarrow> Inr (formatted_name # formatted)))"

definition derive_author :: "document \<Rightarrow> py_error + json" where
  "derive_author document =
     (case py_take3 (doc_get document ''authors'' (JList [])) of
        Inl e \<Rightarrow> Inl e
      | Inr authors_list \<Rightarrow>
         (case py_iter authors_list of
            Inl e \<Rightarrow> Inl e
          | Inr authors \<Rightarrow>
             (case format_authors authors of
                Inl e \<Rightarrow> Inl e
              | Inr formatted_authors \<Rightarrow> Inr (JStr (py_join '' and '' formatted_authors)))))"

text \<open>\<open>document['bibliographic_info'].get(k, '')\<close>.\<close>

definition bibliographic_field :: "document \<Rightarrow> string \<Rightarrow> py_error + json" where
  "bibliographic_field document k =
     (case map_of document ''bibliographic_info'' of
        None \<Rightarrow> Inl KeyError
      | Some bibliographic_info \<Rightarrow> py_get bibliographic_info k (JStr ''''))"

definition derive_page :: "(json \<Rightarrow> string) \<Rightarrow> json \<Rightarrow> json \<Rightarrow> json" where
  "derive_page repr start_page end_page =
     JStr (if py_truthy start_page \<and> py_truthy end_page
           then py_str repr start_page @ '' - '' @ py_str repr end_page
           else if py_truthy start_page \<or> py_truthy end_page
           then py_str repr start_page @ py_str repr end_page
           else '''')"

text \<open>The loop over \<open>document['external_ids']\<close>, from the current \<open>doi\<close> and \<open>pmid\<close>.\<close>

fun scan_ids :: "json list \<Rightarrow> json \<Rightarrow> json \<Rightarrow> py_error + json \<times> json" where
  "scan_ids [] doi pmid = Inr (doi, pmid)"
| "scan_ids (external_ids # rest) doi pmid =
     (case py_get external_ids ''source'' (JStr '''') of
        Inl e \<Rightarrow> Inl e
      | Inr source \<Rightarrow>
          if source = JStr ''doi''
          then (case py_get external_ids ''id'' (JStr '''') of
                  Inl e \<Rightarrow> Inl e
                | Inr v \<Rightarrow> scan_ids rest v pmid)
          else if source = JStr ''pmid''
          then (case py_get external_ids ''id'' (JStr '''') of
                  Inl e \<Rightarrow> Inl e
                | Inr v \<Rightarrow> scan_ids rest doi v)
          else scan_ids rest doi pmid)"

definition derive_ids :: "document \<Rightarrow> py_error + json \<times> json" where
  "derive_ids document =
     (case map_of document ''external_ids'' of
        None \<Rightarrow> Inr (JStr '''', JStr '''')
      | Some ids \<Rightarrow>
         (case py_iter ids of
            Inl e \<Rightarrow> Inl e
          | Inr entries \<Rightarrow> scan_ids entries (JStr '''') (JStr '''')))"

subsection \<open>One document, then the collection\<close>

text \<open>Running a step that may raise, then the rest with its value.\<close>

definition then_do :: "py_error + 'a \<Rightarrow> ('a \<Rightarrow> py_error + 'b) \<Rightarrow> py_error + 'b" where
  "then_do r f = (case r of Inl e \<Rightarrow> Inl e | Inr v \<Rightarrow> f v)"

text \<open>The body of \<open>for document in self.original_collection.find()\<close>, in its order.\<close>

definition normalize_document :: "(json \<Rightarrow> string) \<Rightarrow> document \<Rightarrow> py_error + document" where
  "normalize_document repr document =
     (let abstract = derive_abstract document in
      then_do (derive_journal document) (\<lambda>journal.
      then_do (derive_publisher document) (\<lambda>(publisher, country).
      then_do (titles_field document ''title'') (\<lambda>title.
      then_do (derive_author document) (\<lambda>author.
      let year = doc_get document ''year_published'' (JStr '''') in
      then_do (bibliographic_field document ''volume'') (\<lambda>volume.
      then_do (bibliographic_field document ''issue'') (\<lambda>issue.
      then_do (bibliographic_field document ''start_page'') (\<lambda>start_page.
      then_do (bibliographic_field document ''end_page'') (\<lambda>end_page.
      let page = derive_page repr start_page end_page in
      then_do (titles_field document ''lang'') (\<lambda>lang.
      then_do (derive_ids document) (\<lambda>(doi, pmid).
      Inr [(''journal'', journal),
           (''publisher'', publisher),
           (''country'', country),
           (''title'', title),
           (''author'', author),
           (''year'', year),
           (''volume'', volume),
           (''issue'', issue),
           (''page'', page),
           (''language'', lang),
           (''abstract'', abstract),
           (''doi'', doi),
           (''pmid'', pmid)])))))))))))"

fun normalize_all :: "(json \<Rightarrow> string) \<Rightarrow> document list \<Rightarrow> py_error + document list" where
  "normalize_all repr [] = Inr []"
| "normalize_all repr (document # rest) =
     (case normalize_document repr document of
        Inl e \<Rightarrow> Inl e
      | Inr new_document \<Rightarrow>
         (case normalize_all repr rest of
            Inl e \<Rightarrow> Inl e
          | Inr new_documents \<Rightarrow> Inr (new_document # new_documents)))"

text \<open>
  \<open>copy_data\<close>: nothing is written before the loop has ended, so an exception leaves
  the object as it was.
\<close>

definition copy_data :: "(json \<Rightarrow> string) \<Rightarrow> ahu \<Rightarrow> py_error + ahu" where
  "copy_data repr s =
     (case normalize_all repr (original_collection s) of
        Inl e \<Rightarrow> Inl e
      | Inr documents_to_insert \<Rightarrow>
          if documents_to_insert \<noteq> []
          then Inr (s\<lparr>filtered_collection := filtered_collection s @ documents_to_insert\<rparr>)
          else Inr s)"

section \<open>Vocabulary of the specification\<close>

text \<open>
  A Source Record is a dict whose \<open>external_ids\<close>, when it has the key, is a list of
  dicts; \<open>external_ids\<close> gives that list.
\<close>

fun is_dict :: "json \<Rightarrow> bool" where
  "is_dict (JObj kvs) = True"
| "is_dict _ = False"

definition source_record :: "json \<Rightarrow> bool" where
  "source_record entry =
     (case entry of
        JObj kvs \<Rightarrow>
          (case map_of kvs ''external_ids'' of
             None \<Rightarrow> True
           | Some (JList ids) \<Rightarrow> list_all is_dict ids
           | Some _ \<Rightarrow> False)
      | _ \<Rightarrow> False)"

definition fields :: "json \<Rightarrow> document" where
  "fields entry = (case entry of JObj kvs \<Rightarrow> kvs | _ \<Rightarrow> [])"

definition external_ids :: "document \<Rightarrow> json list" where
  "external_ids document =
     (case map_of document ''external_ids'' of Some (JList ids) \<Rightarrow> ids | _ \<Rightarrow> [])"

text \<open>An entry of \<open>external_ids\<close> whose \<open>source\<close> is the given label.\<close>

definition has_source :: "string \<Rightarrow> json \<Rightarrow> bool" where
  "has_source label e = (map_of (fields e) ''source'' = Some (JStr label))"

definition scholar_listed :: "json \<Rightarrow> bool" where
  "scholar_listed entry = list_ex (has_source ''scholar'') (external_ids (fields entry))"

text \<open>The Staged Record of a Source Record: the record with \<open>keep_abstract\<close> false.\<close>

definition staged :: "json \<Rightarrow> document" where
  "staged entry = AList.update ''keep_abstract'' (JBool False) (fields entry)"

text \<open>A response body that reports \<open>T\<close> results and holds Source Records.\<close>

definition reports_total :: "int \<Rightarrow> json \<Rightarrow> bool" where
  "reports_total T aff = (py_getitem aff ''total_results'' = Inr (JInt T))"

definition page_records :: "json \<Rightarrow> json list" where
  "page_records aff = (case py_getitem aff ''data'' of Inr (JList entries) \<Rightarrow> entries | _ \<Rightarrow> [])"

definition page_of_records :: "json \<Rightarrow> bool" where
  "page_of_records aff =
     (case py_getitem aff ''data'' of
        Inr (JList entries) \<Rightarrow> list_all source_record entries
      | _ \<Rightarrow> False)"



text \<open>
  Splitting a full name on whitespace: \<open>chop\<close> cuts at every separator, \<open>tokens\<close>
  keeps the pieces that are not empty.
\<close>

fun chop :: "string \<Rightarrow> string list" where
  "chop [] = [[]]"
| "chop (c # cs) =
     (if is_space c then [] # chop cs
      else (case chop cs of [] \<Rightarrow> [[c]] | w # ws \<Rightarrow> (c # w) # ws))"

definition tokens :: "string \<Rightarrow> string list" where
  "tokens s = filter (\<lambda>w. w \<noteq> []) (chop s)"

text \<open>
  The formatted name: the first characters of all tokens but the last, a comma and a
  space, the last token; a name of at most one token is left as it is.
\<close>

definition initials_name :: "string \<Rightarrow> string" where
  "initials_name full_name =
     (let ts = tokens full_name in
      if length ts > 1 then map hd (butlast ts) @ '', '' @ last ts else full_name)"

definition joined :: "string \<Rightarrow> string list \<Rightarrow> string" where
  "joined sep xs = (case xs of [] \<Rightarrow> [] | x # rest \<Rightarrow> x @ concat (map (\<lambda>y. sep @ y) rest))"

definition authors :: "document \<Rightarrow> json list" where
  "authors document = (case map_of document ''authors'' of Some (JList xs) \<Rightarrow> xs | _ \<Rightarrow> [])"

definition full_name :: "json \<Rightarrow> string" where
  "full_name author = (case map_of (fields author) ''full_name'' of Some (JStr n) \<Rightarrow> n | _ \<Rightarrow> [])"

text \<open>
  The \<open>id\<close> of the last entry of \<open>external_ids\<close> with the given source, the empty string
  when no entry has it or when that entry has no \<open>id\<close>.
\<close>

definition entry_id :: "json \<Rightarrow> json" where
  "entry_id e = (case map_of (fields e) ''id'' of None \<Rightarrow> JStr [] | Some v \<Rightarrow> v)"

definition last_id :: "string \<Rightarrow> document \<Rightarrow> json" where
  "last_id label document =
     (case rev (filter (has_source label) (external_ids document)) of
        [] \<Rightarrow> JStr []
      | e # earlier \<Rightarrow> entry_id e)"

text \<open>
  The entries of \<open>source.names\<close>, and two readings of the journal: the name of the
  first entry whose \<open>name\<close> is not empty, and the name of the first entry that has the
  key \<open>name\<close>.
\<close>

definition names :: "document \<Rightarrow> json list" where
  "names document =
     (case map_of document ''source'' of
        None \<Rightarrow> []
      | Some source \<Rightarrow> (case map_of (fields source) ''names'' of Some (JList es) \<Rightarrow> es | _ \<Rightarrow> []))"

definition entry_name :: "json \<Rightarrow> json" where
  "entry_name e = (case map_of (fields e) ''name'' of None \<Rightarrow> JStr [] | Some v \<Rightarrow> v)"

definition nonempty_name :: "json \<Rightarrow> bool" where
  "nonempty_name e =
     (case map_of (fields e) ''name'' of None \<Rightarrow> False | Some v \<Rightarrow> py_truthy v)"

definition first_nonempty_name :: "document \<Rightarrow> json" where
  "first_nonempty_name document =
     (case find nonempty_name (names document) of None \<Rightarrow> JStr [] | Some e \<Rightarrow> entry_name e)"

definition has_name :: "json \<Rightarrow> bool" where
  "has_name e = (map_of (fields e) ''name'' \<noteq> None)"

definition first_present_name :: "document \<Rightarrow> json" where
  "first_present_name document =
     (case find has_name (names document) of None \<Rightarrow> JStr [] | Some e \<Rightarrow> entry_name e)"

text \<open>Two documents that agree on every key that \<open>copy_data\<close> reads.\<close>

definition same_fields :: "document \<Rightarrow> document \<Rightarrow> bool" where
  "same_fields d d' =
     list_all (\<lambda>k. map_of d k = map_of d' k)
       [''abstract'', ''keep_abstract'', ''source'', ''titles'', ''authors'',
        ''year_published'', ''bibliographic_info'', ''external_ids'']"

text \<open>
  What one run of \<open>copy_data\<close> writes to the destination collection: the exception
  that ends it, or the documents it appends.
\<close>

definition written :: "(json \<Rightarrow> string) \<Rightarrow> ahu \<Rightarrow> py_error + document list" where
  "written repr s =
     (case copy_data repr s of
        Inl e \<Rightarrow> Inl e
      | Inr s' \<Rightarrow> Inr (drop (length (filtered_collection s)) (filtered_collection s')))"

section \<open>Example data\<close>

text \<open>
  The object as \<open>__init__\<close> leaves it, page size 100, over collections with the given
  documents.
\<close>

definition ahu_init :: "document list \<Rightarrow> document list \<Rightarrow> ahu" where
  "ahu_init original filtered =
     \<lparr>max_results = 100, original_collection = original, filtered_collection = filtered,
      requested = []\<rparr>"

text \<open>
  None of the examples has a list or a dict for a page, so no text of such a value is
  ever asked for.
\<close>

definition repr_unused :: "json \<Rightarrow> string" where
  "repr_unused v = []"

definition normalized :: "document \<Rightarrow> document" where
  "normalized d = (case normalize_document repr_unused d of Inl e \<Rightarrow> [] | Inr n \<Rightarrow> n)"

text \<open>A research product as the API lists it, and a page of two of them.\<close>

definition id_entry :: "string \<Rightarrow> string \<Rightarrow> json" where
  "id_entry label v = JObj [(''source'', JStr label), (''id'', JStr v)]"

definition product :: "string \<Rightarrow> json list \<Rightarrow> json" where
  "product title ids =
     JObj [(''titles'', JList [JObj [(''title'', JStr title), (''lang'', JStr ''en'')]]),
           (''external_ids'', JList ids)]"

definition example_page :: json where
  "example_page =
     JObj [(''data'', JList [product ''Trees'' [id_entry ''doi'' ''10.1/x''],
                             product ''Graphs'' [id_entry ''scholar'' ''s1'',
                                                 id_entry ''doi'' ''10.1/y'']]),
           (''count'', JInt 2),
           (''page'', JInt 1),
           (''total_results'', JInt 250)]"

definition example_server :: "int \<Rightarrow> int \<Rightarrow> response" where
  "example_server page m = Body example_page"

text \<open>Staged documents that differ in one part each.\<close>

definition with_authors :: "string list \<Rightarrow> document" where
  "with_authors ns =
     [(''authors'', JList (map (\<lambda>n. JObj [(''full_name'', JStr n)]) ns)),
      (''bibliographic_info'', JObj []),
      (''keep_abstract'', JBool False)]"

definition with_pages :: "(string \<times> json) list \<Rightarrow> document" where
  "with_pages info = [(''bibliographic_info'', JObj info), (''keep_abstract'', JBool False)]"

text \<open>The new document that has the given page and nothing else.\<close>

definition paged :: "string \<Rightarrow> document" where
  "paged page =
     [(''journal'', JStr []), (''publisher'', JStr []), (''country'', JStr []),
      (''title'', JStr []), (''author'', JStr []), (''year'', JStr []),
      (''volume'', JStr []), (''issue'', JStr []), (''page'', JStr page),
      (''language'', JStr []), (''abstract'', JStr []), (''doi'', JStr []),
      (''pmid'', JStr [])]"

definition with_ids :: "json list \<Rightarrow> document" where
  "with_ids ids =
     [(''external_ids'', JList ids),
      (''bibliographic_info'', JObj []),
      (''keep_abstract'', JBool False)]"

definition with_names :: "json list \<Rightarrow> document" where
  "with_names es =
     [(''source'', JObj [(''names'', JList es)]),
      (''bibliographic_info'', JObj []),
      (''keep_abstract'', JBool False)]"

definition with_abstract :: "(string \<times> json) list \<Rightarrow> document" where
  "with_abstract flag =
     [(''abstract'', JStr ''We study trees.''), (''bibliographic_info'', JObj [])] @ flag"

section \<open>Facts about fetch\_data\<close>

lemma any_scholar_dicts:
  "list_all is_dict sources \<Longrightarrow>
   any_scholar sources = Inr (list_ex (has_source ''scholar'') sources)"
proof (induction sources)
  case Nil
  then show ?case by simp
next
  case (Cons x xs)
  then obtain kvs where x: "x = JObj kvs" by (cases x) auto
  from Cons show ?case
    by (auto simp: x has_source_def fields_def split: option.splits)
qed

lemma fetch_entry_record:
  assumes "source_record entry"
  shows "fetch_entry entry coll =
           (None, if scholar_listed entry then coll else coll @ [staged entry])"
proof -
  from assms obtain kvs where e: "entry = JObj kvs"
    by (cases entry) (auto simp: source_record_def)
  show ?thesis
  proof (cases "map_of kvs ''external_ids''")
    case None
    then show ?thesis
      by (simp add: e scholar_listed_def external_ids_def staged_def fields_def)
  next
    case (Some v)
    with assms e obtain ids where v: "v = JList ids" and d: "list_all is_dict ids"
      by (cases v) (auto simp: source_record_def)
    show ?thesis
      using Some v any_scholar_dicts [OF d]
      by (simp add: e scholar_listed_def external_ids_def staged_def fields_def)
  qed
qed

lemma fetch_entries_records:
  "list_all source_record entries \<Longrightarrow>
   fetch_entries entries coll =
     (None, coll @ map staged (filter (\<lambda>e. \<not> scholar_listed e) entries))"
proof (induction entries arbitrary: coll)
  case Nil
  then show ?case by simp
next
  case (Cons e es)
  then show ?case by (simp add: fetch_entry_record del: fetch_entry.simps)
qed

lemma fetch_page_records:
  assumes "py_getitem aff ''total_results'' = Inr tr" and "page_of_records aff"
  shows "fetch_page aff page s =
           (py_int_ge (page * max_results s) tr,
            s\<lparr>original_collection := original_collection s @
                 map staged (filter (\<lambda>e. \<not> scholar_listed e) (page_records aff))\<rparr>)"
proof -
  from assms(2) obtain entries where d: "py_getitem aff ''data'' = Inr (JList entries)"
    and r: "list_all source_record entries"
    by (auto simp: page_of_records_def split: sum.splits json.splits)
  show ?thesis
    by (simp add: fetch_page_def assms(1) d page_records_def fetch_entries_records [OF r])
qed


lemma example_page_records: "page_of_records example_page"
  by (simp add: page_of_records_def example_page_def source_record_def product_def id_entry_def)

lemma fetch_page_total:
  assumes "reports_total T aff" and "page_of_records aff"
  shows "fetch_page aff page s =
           (Inr (T \<le> page * max_results s),
            s\<lparr>original_collection := original_collection s @
                 map staged (filter (\<lambda>e. \<not> scholar_listed e) (page_records aff))\<rparr>)"
  using fetch_page_records [OF _ assms(2), of "JInt T" page s] assms(1)
  by (simp add: reports_total_def)

lemma fetch_loop_stops:
  assumes m: "0 < m"
    and server: "\<And>p. 1 \<le> p \<Longrightarrow>
                   \<exists>aff. server p m = Body aff \<and> reports_total T aff \<and> page_of_records aff"
  shows "1 \<le> page \<Longrightarrow> max_results s = m \<Longrightarrow>
         \<exists>k s'. fetch_loop server page s = Some (None, s') \<and>
                requested s' = requested s @ [page..k] \<and> page \<le> k \<and> T \<le> k * m \<and>
                (\<forall>q. page \<le> q \<and> q < k \<longrightarrow> q * m < T)"
proof (induction "nat (T - page * m)" arbitrary: page s rule: less_induct)
  case less
  from server [OF less.prems(1)] obtain aff where
    aff: "server page m = Body aff" "reports_total T aff" "page_of_records aff"
    by blast
  let ?s1 = "s\<lparr>requested := requested s @ [page]\<rparr>"
  let ?s2 = "?s1\<lparr>original_collection := original_collection ?s1 @
                 map staged (filter (\<lambda>e. \<not> scholar_listed e) (page_records aff))\<rparr>"
  have page: "fetch_page aff page ?s1 = (Inr (T \<le> page * m), ?s2)"
    using fetch_page_total [OF aff(2,3), of page ?s1] less.prems(2) by simp
  show ?case
  proof (cases "T \<le> page * m")
    case True
    have "fetch_loop server page s = Some (None, ?s2)"
      by (subst fetch_loop.simps) (simp add: less.prems(2) aff(1) page True)
    moreover have "requested ?s2 = requested s @ [page..page]" by simp
    ultimately show ?thesis using True by (intro exI [of _ page] exI [of _ ?s2]) auto
  next
    case False
    have step: "fetch_loop server page s = fetch_loop server (page + 1) ?s2"
      by (subst fetch_loop.simps) (simp add: less.prems(2) aff(1) page False)
    have "page * m < (page + 1) * m" using m by (simp add: algebra_simps)
    with False have dec: "nat (T - (page + 1) * m) < nat (T - page * m)" by linarith
    from less.hyps [OF dec, of ?s2] less.prems obtain k s' where
      k: "fetch_loop server (page + 1) ?s2 = Some (None, s')"
         "requested s' = requested ?s2 @ [page + 1..k]" "page + 1 \<le> k" "T \<le> k * m"
         "\<forall>q. page + 1 \<le> q \<and> q < k \<longrightarrow> q * m < T"
      by auto
    have "requested s' = requested s @ [page..k]"
      using k(2,3) by (simp add: upto_rec1 [of page k])
    moreover have "\<forall>q. page \<le> q \<and> q < k \<longrightarrow> q * m < T"
    proof (intro allI impI)
      fix q assume q: "page \<le> q \<and> q < k"
      show "q * m < T"
      proof (cases "q = page")
        case True
        with False show ?thesis by simp
      next
        case False
        with q k(5) show ?thesis by simp
      qed
    qed
    ultimately show ?thesis using k(1,3,4) step
      by (intro exI [of _ k] exI [of _ s']) auto
  qed
qed

text \<open>
  C3. With a positive page size, when every page is answered without a request error,
  reports the same total \<open>T\<close> and holds Source Records, \<open>fetch_data\<close> returns. It has
  then requested the pages 1 to \<open>k\<close>, each once and in this order, where \<open>k\<close> is the
  first page with \<open>k * page_size \<ge> T\<close>. For \<open>T = 250\<close> and page size 100 these are the
  pages 1, 2 and 3.
\<close>

theorem fetch_data_terminates:
  assumes "0 < max_results s"
    and "\<And>p. 1 \<le> p \<Longrightarrow>
           \<exists>aff. server p (max_results s) = Body aff \<and> reports_total T aff \<and>
                 page_of_records aff"
  shows "\<exists>k s'. fetch_data server s = Some (None, s') \<and>
                requested s' = requested s @ [1..k] \<and> 1 \<le> k \<and> T \<le> k * max_results s \<and>
                (\<forall>q. 1 \<le> q \<and> q < k \<longrightarrow> q * max_results s < T) \<and>
                (T = 250 \<and> max_results s = 100 \<longrightarrow> requested s' = requested s @ [1, 2, 3])"
proof -
  from fetch_loop_stops [OF assms(1), of server T 1 s] assms(2) obtain k s' where
    k: "fetch_loop server 1 s = Some (None, s')" "requested s' = requested s @ [1..k]"
       "1 \<le> k" "T \<le> k * max_results s" "\<forall>q. 1 \<le> q \<and> q < k \<longrightarrow> q * max_results s < T"
    by auto
  have "requested s' = requested s @ [1, 2, 3]" if "T = 250" and "max_results s = 100"
  proof -
    from k(4) that have "3 \<le> k" by simp
    moreover have "\<not> 3 < k" using k(5) [rule_format, of 3] that by auto
    ultimately have "k = 3" by simp
    moreover have "[1..3::int] = [1, 2, 3]" by (simp add: upto.simps)
    ultimately show ?thesis using k(2) by simp
  qed
  with k show ?thesis
    unfolding fetch_data_def by (intro exI [of _ k] exI [of _ s']) simp
qed

text \<open>
  A server that reports 250 results on every page, asked with page size 100, is sent
  three requests.
\<close>

theorem fetch_data_terminates_witness:
  "0 < max_results (ahu_init [] [])
   \<and> (\<exists>s'. fetch_data example_server (ahu_init [] []) = Some (None, s') \<and>
            requested s' = [1, 2, 3])"
proof -
  have srv: "\<And>p. 1 \<le> p \<Longrightarrow>
           \<exists>aff. example_server p (max_results (ahu_init [] [])) = Body aff \<and>
                 reports_total 250 aff \<and> page_of_records aff"
    by (simp add: example_server_def example_page_records)
       (simp add: reports_total_def example_page_def)
  have pos: "0 < max_results (ahu_init [] [])" by (simp add: ahu_init_def)
  from fetch_data_terminates
         [where s = "ahu_init [] []" and server = example_server and T = 250, OF pos srv]
  show ?thesis by (auto simp: ahu_init_def)
qed





section \<open>Facts about copy\_data\<close>

subsection \<open>A document that is normalized\<close>

lemma then_do_Inr: "then_do r f = Inr y \<longleftrightarrow> (\<exists>v. r = Inr v \<and> f v = Inr y)"
  by (cases r) (simp_all add: then_do_def)

lemma normalize_document_Inr:
  assumes "normalize_document repr document = Inr new_document"
  obtains journal publisher country title author volume issue start_page end_page lang doi pmid
  where "derive_journal document = Inr journal"
    and "derive_publisher document = Inr (publisher, country)"
    and "titles_field document ''title'' = Inr title"
    and "derive_author document = Inr author"
    and "bibliographic_field document ''volume'' = Inr volume"
    and "bibliographic_field document ''issue'' = Inr issue"
    and "bibliographic_field document ''start_page'' = Inr start_page"
    and "bibliographic_field document ''end_page'' = Inr end_page"
    and "titles_field document ''lang'' = Inr lang"
    and "derive_ids document = Inr (doi, pmid)"
    and "new_document =
          [(''journal'', journal),
           (''publisher'', publisher),
           (''country'', country),
           (''title'', title),
           (''author'', author),
           (''year'', doc_get document ''year_published'' (JStr [])),
           (''volume'', volume),
           (''issue'', issue),
           (''page'', derive_page repr start_page end_page),
           (''language'', lang),
           (''abstract'', derive_abstract document),
           (''doi'', doi),
           (''pmid'', pmid)]"
  using assms
  by (auto simp: normalize_document_def Let_def then_do_Inr split: prod.splits)

lemmas normalize_defs =
  normalize_document_def then_do_def derive_abstract_def derive_journal_def
  derive_publisher_def publisher_try_def titles_field_def derive_author_def
  format_author_def bibliographic_field_def derive_page_def derive_ids_def doc_get_def
  py_split_def is_space_def

subsection \<open>Authors\<close>

lemma chop_not_Nil: "chop s \<noteq> []"
  by (induction s) (auto split: list.splits)

lemma split_from_chop:
  "split_from cur s =
     filter (\<lambda>w. w \<noteq> []) (case chop s of [] \<Rightarrow> [cur] | w # ws \<Rightarrow> (cur @ w) # ws)"
proof (induction s arbitrary: cur)
  case Nil
  then show ?case by simp
next
  case (Cons c cs)
  obtain w ws where w: "chop cs = w # ws"
    using chop_not_Nil [of cs] by (cases "chop cs") auto
  show ?case
    by (simp add: Cons.IH w)
qed

lemma py_split_tokens: "py_split s = tokens s"
proof -
  obtain w ws where w: "chop s = w # ws"
    using chop_not_Nil [of s] by (cases "chop s") auto
  show ?thesis
    by (simp add: py_split_def tokens_def split_from_chop w)
qed

lemma tokens_not_empty: "w \<in> set (tokens s) \<Longrightarrow> w \<noteq> []"
  by (simp add: tokens_def)

lemma first_characters:
  "\<forall>w\<in>set ws. w \<noteq> [] \<Longrightarrow> concat (map (take (Suc 0)) ws) = map hd ws"
proof (induction ws)
  case Nil
  then show ?case by simp
next
  case (Cons w ws)
  then show ?case by (cases w) auto
qed

lemma initials_tokens:
  "concat (map (take (Suc 0)) (butlast (tokens s))) = map hd (butlast (tokens s))"
  by (rule first_characters) (auto dest: in_set_butlastD tokens_not_empty)

lemma format_author_Inr:
  assumes "format_author author = Inr r"
  shows "r = initials_name (full_name author)"
proof -
  from assms obtain kvs where a: "author = JObj kvs"
    by (cases author) (auto simp: format_author_def)
  show ?thesis
  proof (cases "map_of kvs ''full_name''")
    case None
    with assms show ?thesis
      by (simp add: a format_author_def full_name_def fields_def initials_name_def
          py_split_tokens tokens_def)
  next
    case (Some v)
    show ?thesis
    proof (cases "py_truthy v")
      case True
      with assms Some obtain n where v: "v = JStr n"
        by (cases v) (auto simp: a format_author_def)
      from assms Some True show ?thesis
        by (auto simp: a v format_author_def full_name_def fields_def initials_name_def
            py_split_tokens initials_tokens Let_def split: if_splits)
    next
      case False
      then have "full_name author = []"
        using Some by (cases v) (auto simp: a full_name_def fields_def)
      with assms Some False show ?thesis
        by (simp add: a format_author_def initials_name_def py_split_tokens tokens_def)
    qed
  qed
qed

lemma format_authors_Inr:
  "format_authors as = Inr rs \<Longrightarrow> rs = map (\<lambda>a. initials_name (full_name a)) as"
proof (induction as arbitrary: rs)
  case Nil
  then show ?case by simp
next
  case (Cons a as)
  then show ?case
    by (auto split: sum.splits dest: format_author_Inr)
qed

lemma py_join_joined: "py_join sep xs = joined sep xs"
proof (induction sep xs rule: py_join.induct)
  case (3 sep x y ys)
  then show ?case by (simp add: joined_def)
qed (simp_all add: joined_def)

lemma format_authors_chars:
  "format_authors (map (\<lambda>c. JStr [c]) s) = Inr rs \<Longrightarrow> s = []"
  by (cases s) (auto simp: format_author_def split: sum.splits)

lemma derive_author_Inr:
  assumes "derive_author document = Inr v"
  shows "v = JStr (joined '' and ''
               (map (\<lambda>a. initials_name (full_name a)) (take 3 (authors document))))"
proof (cases "map_of document ''authors''")
  case None
  with assms show ?thesis
    by (auto simp: derive_author_def doc_get_def authors_def joined_def)
next
  case (Some x)
  show ?thesis
  proof (cases x)
    case (JList xs)
    with assms Some show ?thesis
      by (auto simp: derive_author_def doc_get_def authors_def py_join_joined
          split: sum.splits dest: format_authors_Inr)
  next
    case (JStr s)
    with assms Some have "take 3 s = []"
      by (auto simp: derive_author_def doc_get_def split: sum.splits dest: format_authors_chars)
    with assms Some JStr show ?thesis
      by (auto simp: derive_author_def doc_get_def authors_def joined_def)
  qed (use assms Some in \<open>auto simp: derive_author_def doc_get_def\<close>)
qed

text \<open>
  C4. In a normalized document the \<open>author\<close> field is made from at most the first
  three entries of \<open>authors\<close>: each full name is split on whitespace; a name of more
  than one token becomes the first characters of all tokens but the last, then a comma
  and a space, then the last token; a name of one token or none is left as it is; the
  results are joined with \<open>" and "\<close>.
\<close>

theorem author_field:
  assumes "normalize_document repr document = Inr new_document"
  shows "map_of new_document ''author'' =
           Some (JStr (joined '' and ''
                   (map (\<lambda>a. initials_name (full_name a)) (take 3 (authors document)))))"
proof -
  from assms obtain author where
    "derive_author document = Inr author" "map_of new_document ''author'' = Some author"
    by (elim normalize_document_Inr) simp
  then show ?thesis by (simp add: derive_author_Inr)
qed

text \<open>
  Four authors, of whom three are taken; one author of a single token; one author
  with the empty name.
\<close>

theorem author_field_witness:
  "normalize_document repr_unused
       (with_authors [''Jane Ann Doe'', ''John Smith'', ''Ann Lee'', ''Max Roe'']) =
     Inr (normalized (with_authors [''Jane Ann Doe'', ''John Smith'', ''Ann Lee'', ''Max Roe'']))
   \<and> map_of (normalized (with_authors [''Jane Ann Doe'', ''John Smith'', ''Ann Lee'', ''Max Roe'']))
       ''author'' = Some (JStr ''JA, Doe and J, Smith and A, Lee'')
   \<and> normalize_document repr_unused (with_authors [''Doe'']) =
       Inr (normalized (with_authors [''Doe'']))
   \<and> map_of (normalized (with_authors [''Doe''])) ''author'' = Some (JStr ''Doe'')
   \<and> normalize_document repr_unused (with_authors [[]]) = Inr (normalized (with_authors [[]]))
   \<and> map_of (normalized (with_authors [[]])) ''author'' = Some (JStr [])"
proof -
  have n4: "normalize_document repr_unused
       (with_authors [''Jane Ann Doe'', ''John Smith'', ''Ann Lee'', ''Max Roe'']) =
     Inr (normalized (with_authors [''Jane Ann Doe'', ''John Smith'', ''Ann Lee'', ''Max Roe'']))"
    by (simp add: normalized_def with_authors_def normalize_defs)
  have n1: "normalize_document repr_unused (with_authors [''Doe'']) =
              Inr (normalized (with_authors [''Doe'']))"
    by (simp add: normalized_def with_authors_def normalize_defs)
  have n0: "normalize_document repr_unused (with_authors [[]]) =
              Inr (normalized (with_authors [[]]))"
    by (simp add: normalized_def with_authors_def normalize_defs)
  have "joined '' and '' (map (\<lambda>a. initials_name (full_name a))
          (take 3 (authors (with_authors [''Jane Ann Doe'', ''John Smith'', ''Ann Lee'', ''Max Roe''])))) =
        ''JA, Doe and J, Smith and A, Lee''"
    by (simp add: with_authors_def authors_def joined_def initials_name_def full_name_def
        fields_def tokens_def is_space_def)
  moreover have "joined '' and '' (map (\<lambda>a. initials_name (full_name a))
          (take 3 (authors (with_authors [''Doe''])))) = ''Doe''"
    by (simp add: with_authors_def authors_def joined_def initials_name_def full_name_def
        fields_def tokens_def is_space_def)
  moreover have "joined '' and '' (map (\<lambda>a. initials_name (full_name a))
          (take 3 (authors (with_authors [[]])))) = []"
    by (simp add: with_authors_def authors_def joined_def initials_name_def full_name_def
        fields_def tokens_def)
  ultimately show ?thesis
    using author_field [OF n4] author_field [OF n1] author_field [OF n0] n4 n1 n0 by simp
qed

subsection \<open>Pages\<close>

text \<open>
  C5. A staged document whose \<open>start_page\<close> is \<open>None\<close> and whose \<open>end_page\<close> is
  \<open>"20"\<close> gets the page \<open>"None20"\<close>, and one with the start \<open>"10"\<close> and the end \<open>None\<close>
  gets \<open>"10None"\<close>: the condition takes \<open>None\<close> as not present, and the f-string
  prints it all the same. Where the other key is missing or holds the empty string the
  page is the one that is present; with both it is the start, \<open>" - "\<close> and the end;
  with neither it is empty.
\<close>

theorem page_prints_none:
  "normalize_document repr (with_pages [(''start_page'', JNull), (''end_page'', JStr ''20'')]) =
     Inr (paged ''None20'')
   \<and> normalize_document repr (with_pages [(''start_page'', JStr ''10''), (''end_page'', JNull)]) =
       Inr (paged ''10None'')
   \<and> normalize_document repr (with_pages [(''end_page'', JStr ''20'')]) = Inr (paged ''20'')
   \<and> normalize_document repr (with_pages [(''start_page'', JStr ''10'')]) = Inr (paged ''10'')
   \<and> normalize_document repr
         (with_pages [(''start_page'', JStr ''10''), (''end_page'', JStr [])]) =
       Inr (paged ''10'')
   \<and> normalize_document repr
         (with_pages [(''start_page'', JStr ''10''), (''end_page'', JStr ''20'')]) =
       Inr (paged ''10 - 20'')
   \<and> normalize_document repr (with_pages [(''start_page'', JStr []), (''end_page'', JStr [])]) =
       Inr (paged [])"
proof -
  have "normalize_document repr
          (with_pages [(''start_page'', JNull), (''end_page'', JStr ''20'')]) =
        Inr (paged ''None20'')"
    by (simp add: with_pages_def paged_def normalize_defs)
  moreover have "normalize_document repr
          (with_pages [(''start_page'', JStr ''10''), (''end_page'', JNull)]) =
        Inr (paged ''10None'')"
    by (simp add: with_pages_def paged_def normalize_defs)
  moreover have "normalize_document repr (with_pages [(''end_page'', JStr ''20'')]) =
        Inr (paged ''20'')"
    by (simp add: with_pages_def paged_def normalize_defs)
  moreover have "normalize_document repr (with_pages [(''start_page'', JStr ''10'')]) =
        Inr (paged ''10'')"
    by (simp add: with_pages_def paged_def normalize_defs)
  moreover have "normalize_document repr
          (with_pages [(''start_page'', JStr ''10''), (''end_page'', JStr [])]) =
        Inr (paged ''10'')"
    by (simp add: with_pages_def paged_def normalize_defs)
  moreover have "normalize_document repr
          (with_pages [(''start_page'', JStr ''10''), (''end_page'', JStr ''20'')]) =
        Inr (paged ''10 - 20'')"
    by (simp add: with_pages_def paged_def normalize_defs)
  moreover have "normalize_document repr
          (with_pages [(''start_page'', JStr []), (''end_page'', JStr [])]) =
        Inr (paged [])"
    by (simp add: with_pages_def paged_def normalize_defs)
  ultimately show ?thesis by simp
qed

subsection \<open>DOI and PMID\<close>

lemma scan_ids_Inr:
  "scan_ids xs doi pmid = Inr (doi', pmid') \<Longrightarrow>
   doi' = (case rev (filter (has_source ''doi'') xs) of
             [] \<Rightarrow> doi | e # earlier \<Rightarrow> entry_id e) \<and>
   pmid' = (case rev (filter (has_source ''pmid'') xs) of
              [] \<Rightarrow> pmid | e # earlier \<Rightarrow> entry_id e)"
proof (induction xs arbitrary: doi pmid)
  case Nil
  then show ?case by simp
next
  case (Cons x xs)
  then obtain kvs where x: "x = JObj kvs" by (cases x) auto
  from Cons.prems show ?case
    by (auto simp: x has_source_def entry_id_def fields_def
        split: if_splits option.splits list.splits dest!: Cons.IH)
qed

lemma scan_ids_strs:
  "scan_ids (map (\<lambda>x. JStr (f x)) xs) doi pmid = Inr r \<Longrightarrow> xs = []"
  by (cases xs) auto

lemma derive_ids_Inr:
  assumes "derive_ids document = Inr (doi, pmid)"
  shows "doi = last_id ''doi'' document \<and> pmid = last_id ''pmid'' document"
proof (cases "map_of document ''external_ids''")
  case None
  with assms show ?thesis
    by (auto simp: derive_ids_def last_id_def external_ids_def)
next
  case (Some ids)
  show ?thesis
  proof (cases ids)
    case (JList xs)
    with assms Some have "scan_ids xs (JStr []) (JStr []) = Inr (doi, pmid)"
      by (simp add: derive_ids_def)
    from scan_ids_Inr [OF this] show ?thesis
      by (simp add: last_id_def external_ids_def Some JList)
  next
    case (JStr s)
    with assms Some have "s = []"
      by (auto simp: derive_ids_def dest: scan_ids_strs)
    with assms Some JStr show ?thesis
      by (auto simp: derive_ids_def last_id_def external_ids_def)
  next
    case (JObj kvs)
    with assms Some have "kvs = []"
      by (auto simp: derive_ids_def dest: scan_ids_strs)
    with assms Some JObj show ?thesis
      by (auto simp: derive_ids_def last_id_def external_ids_def)
  qed (use assms Some in \<open>auto simp: derive_ids_def\<close>)
qed

text \<open>
  C6. In a normalized document the \<open>doi\<close> field is the \<open>id\<close> of the last entry of
  \<open>external_ids\<close> whose source is \<open>doi\<close>, and the \<open>pmid\<close> field the \<open>id\<close> of the last
  entry whose source is \<open>pmid\<close>. Each is the empty string when \<open>external_ids\<close> is
  missing or empty or has no such entry.
\<close>

theorem doi_pmid_fields:
  assumes "normalize_document repr document = Inr new_document"
  shows "map_of new_document ''doi'' = Some (last_id ''doi'' document)
       \<and> map_of new_document ''pmid'' = Some (last_id ''pmid'' document)"
proof -
  from assms obtain doi pmid where
    "derive_ids document = Inr (doi, pmid)"
    "map_of new_document ''doi'' = Some doi" "map_of new_document ''pmid'' = Some pmid"
    by (elim normalize_document_Inr) simp
  then show ?thesis by (auto dest: derive_ids_Inr)
qed

text \<open>
  One DOI and one PMID; two DOIs, of which the later is taken; no external id.
\<close>

theorem doi_pmid_fields_witness:
  "normalize_document repr_unused
       (with_ids [id_entry ''doi'' ''10.1/x'', id_entry ''pmid'' ''999'']) =
     Inr (normalized (with_ids [id_entry ''doi'' ''10.1/x'', id_entry ''pmid'' ''999'']))
   \<and> map_of (normalized (with_ids [id_entry ''doi'' ''10.1/x'', id_entry ''pmid'' ''999'']))
       ''doi'' = Some (JStr ''10.1/x'')
   \<and> map_of (normalized (with_ids [id_entry ''doi'' ''10.1/x'', id_entry ''pmid'' ''999'']))
       ''pmid'' = Some (JStr ''999'')
   \<and> normalize_document repr_unused
       (with_ids [id_entry ''doi'' ''10.1/x'', id_entry ''doi'' ''10.1/y'']) =
     Inr (normalized (with_ids [id_entry ''doi'' ''10.1/x'', id_entry ''doi'' ''10.1/y'']))
   \<and> map_of (normalized (with_ids [id_entry ''doi'' ''10.1/x'', id_entry ''doi'' ''10.1/y'']))
       ''doi'' = Some (JStr ''10.1/y'')
   \<and> normalize_document repr_unused (with_ids []) = Inr (normalized (with_ids []))
   \<and> map_of (normalized (with_ids [])) ''doi'' = Some (JStr [])
   \<and> map_of (normalized (with_ids [])) ''pmid'' = Some (JStr [])"
proof -
  have both: "normalize_document repr_unused
       (with_ids [id_entry ''doi'' ''10.1/x'', id_entry ''pmid'' ''999'']) =
     Inr (normalized (with_ids [id_entry ''doi'' ''10.1/x'', id_entry ''pmid'' ''999'']))"
    by (simp add: normalized_def with_ids_def id_entry_def normalize_defs)
  have twice: "normalize_document repr_unused
       (with_ids [id_entry ''doi'' ''10.1/x'', id_entry ''doi'' ''10.1/y'']) =
     Inr (normalized (with_ids [id_entry ''doi'' ''10.1/x'', id_entry ''doi'' ''10.1/y'']))"
    by (simp add: normalized_def with_ids_def id_entry_def normalize_defs)
  have none: "normalize_document repr_unused (with_ids []) = Inr (normalized (with_ids []))"
    by (simp add: normalized_def with_ids_def normalize_defs)
  have "last_id ''doi'' (with_ids [id_entry ''doi'' ''10.1/x'', id_entry ''pmid'' ''999'']) =
          JStr ''10.1/x''"
       "last_id ''pmid'' (with_ids [id_entry ''doi'' ''10.1/x'', id_entry ''pmid'' ''999'']) =
          JStr ''999''"
       "last_id ''doi'' (with_ids [id_entry ''doi'' ''10.1/x'', id_entry ''doi'' ''10.1/y'']) =
          JStr ''10.1/y''"
       "last_id ''doi'' (with_ids []) = JStr []"
       "last_id ''pmid'' (with_ids []) = JStr []"
    by (simp_all add: last_id_def with_ids_def id_entry_def external_ids_def has_source_def
        entry_id_def fields_def)
  then show ?thesis
    using doi_pmid_fields [OF both] doi_pmid_fields [OF twice] doi_pmid_fields [OF none]
      both twice none
    by simp
qed

subsection \<open>Journal\<close>

lemma first_name_Inr:
  "first_name es = Inr j \<Longrightarrow>
   j = (case find has_name es of None \<Rightarrow> JStr [] | Some e \<Rightarrow> entry_name e)"
proof (induction es)
  case Nil
  then show ?case by simp
next
  case (Cons e es)
  then show ?case
    by (cases e) (auto simp: has_name_def entry_name_def fields_def split: if_splits)
qed

lemma first_name_strs:
  "first_name (map (\<lambda>x. JStr (f x)) xs) = Inr j \<Longrightarrow> j = JStr []"
  by (induction xs) (auto split: if_splits)

lemma derive_journal_Inr:
  assumes "derive_journal document = Inr j"
  shows "j = first_present_name document"
proof (cases "doc_get document ''source'' (JObj [])")
  case (JObj kvs)
  have names: "names document = (case map_of kvs ''names'' of Some (JList es) \<Rightarrow> es | _ \<Rightarrow> [])"
    using JObj by (auto simp: names_def doc_get_def fields_def split: option.splits)
  show ?thesis
  proof (cases "map_of kvs ''names''")
    case None
    with assms JObj names show ?thesis
      by (simp add: derive_journal_def first_present_name_def)
  next
    case (Some ns)
    show ?thesis
    proof (cases ns)
      case (JList es)
      with assms Some JObj names show ?thesis
        by (auto simp: derive_journal_def first_present_name_def dest: first_name_Inr)
    next
      case (JStr s)
      with assms Some \<open>doc_get document ''source'' (JObj []) = JObj kvs\<close> names show ?thesis
        by (auto simp: derive_journal_def first_present_name_def dest: first_name_strs)
    next
      case (JObj nkvs)
      with assms Some \<open>doc_get document ''source'' (JObj []) = JObj kvs\<close> names show ?thesis
        by (auto simp: derive_journal_def first_present_name_def dest: first_name_strs)
    qed (use assms Some \<open>doc_get document ''source'' (JObj []) = JObj kvs\<close> in
          \<open>auto simp: derive_journal_def\<close>)
  qed
qed (use assms in \<open>auto simp: derive_journal_def\<close>)

text \<open>
  C7, as amended. In a normalized document the \<open>journal\<close> field is the \<open>name\<close> of the
  first entry of \<open>source.names\<close> that has the key \<open>name\<close>, whatever that name is; it is
  the empty string when \<open>source.names\<close> is missing or no entry has the key.
\<close>

theorem journal_field:
  assumes "normalize_document repr document = Inr new_document"
  shows "map_of new_document ''journal'' = Some (first_present_name document)"
proof -
  from assms obtain journal where
    "derive_journal document = Inr journal" "map_of new_document ''journal'' = Some journal"
    by (elim normalize_document_Inr) simp
  then show ?thesis by (simp add: derive_journal_Inr)
qed

text \<open>
  An entry without a name comes before the named one; and there are no names at all.
\<close>

theorem journal_field_witness:
  "normalize_document repr_unused
       (with_names [JObj [(''lang'', JStr ''en'')], JObj [(''name'', JStr ''Nature'')]]) =
     Inr (normalized (with_names [JObj [(''lang'', JStr ''en'')], JObj [(''name'', JStr ''Nature'')]]))
   \<and> map_of (normalized (with_names [JObj [(''lang'', JStr ''en'')], JObj [(''name'', JStr ''Nature'')]]))
       ''journal'' = Some (JStr ''Nature'')
   \<and> normalize_document repr_unused (with_names []) = Inr (normalized (with_names []))
   \<and> map_of (normalized (with_names [])) ''journal'' = Some (JStr [])"
proof -
  have second: "normalize_document repr_unused
       (with_names [JObj [(''lang'', JStr ''en'')], JObj [(''name'', JStr ''Nature'')]]) =
     Inr (normalized (with_names [JObj [(''lang'', JStr ''en'')], JObj [(''name'', JStr ''Nature'')]]))"
    by (simp add: normalized_def with_names_def normalize_defs)
  have none: "normalize_document repr_unused (with_names []) = Inr (normalized (with_names []))"
    by (simp add: normalized_def with_names_def normalize_defs)
  have "first_present_name
          (with_names [JObj [(''lang'', JStr ''en'')], JObj [(''name'', JStr ''Nature'')]]) =
        JStr ''Nature''"
       "first_present_name (with_names []) = JStr []"
    by (simp_all add: first_present_name_def with_names_def names_def has_name_def
        entry_name_def fields_def)
  then show ?thesis
    using journal_field [OF second] journal_field [OF none] second none by simp
qed

text \<open>
  C7 as the specification has it fails where the first entry has an empty name: the
  journal is then empty, though a later entry has a name that is not.
\<close>

theorem journal_counterexample:
  "normalize_document repr_unused
       (with_names [JObj [(''name'', JStr [])], JObj [(''name'', JStr ''Nature'')]]) =
     Inr (normalized (with_names [JObj [(''name'', JStr [])], JObj [(''name'', JStr ''Nature'')]]))
   \<and> map_of (normalized (with_names [JObj [(''name'', JStr [])], JObj [(''name'', JStr ''Nature'')]]))
       ''journal'' = Some (JStr [])
   \<and> first_nonempty_name
       (with_names [JObj [(''name'', JStr [])], JObj [(''name'', JStr ''Nature'')]]) =
     JStr ''Nature''"
  by (simp add: normalized_def with_names_def normalize_defs first_nonempty_name_def names_def
      nonempty_name_def entry_name_def fields_def)

subsection \<open>Abstract\<close>

text \<open>
  C8. In a normalized document the \<open>abstract\<close> field is the document's \<open>abstract\<close> as
  it is, the empty string when it has none, if \<open>keep_abstract\<close> is true or missing; it
  is the empty string if \<open>keep_abstract\<close> is false.
\<close>

theorem abstract_field:
  assumes "normalize_document repr document = Inr new_document"
  shows "(map_of document ''keep_abstract'' = None \<or>
          map_of document ''keep_abstract'' = Some (JBool True) \<longrightarrow>
            map_of new_document ''abstract'' =
              Some (case map_of document ''abstract'' of None \<Rightarrow> JStr [] | Some a \<Rightarrow> a))
       \<and> (map_of document ''keep_abstract'' = Some (JBool False) \<longrightarrow>
            map_of new_document ''abstract'' = Some (JStr []))"
proof -
  from assms have "map_of new_document ''abstract'' = Some (derive_abstract document)"
    by (elim normalize_document_Inr) simp
  then show ?thesis by (auto simp: derive_abstract_def doc_get_def)
qed

text \<open>The same abstract with the flag false, with the flag true and without the flag.\<close>

theorem abstract_field_witness:
  "normalize_document repr_unused (with_abstract [(''keep_abstract'', JBool False)]) =
     Inr (normalized (with_abstract [(''keep_abstract'', JBool False)]))
   \<and> map_of (normalized (with_abstract [(''keep_abstract'', JBool False)])) ''abstract'' =
       Some (JStr [])
   \<and> normalize_document repr_unused (with_abstract [(''keep_abstract'', JBool True)]) =
       Inr (normalized (with_abstract [(''keep_abstract'', JBool True)]))
   \<and> map_of (normalized (with_abstract [(''keep_abstract'', JBool True)])) ''abstract'' =
       Some (JStr ''We study trees.'')
   \<and> normalize_document repr_unused (with_abstract []) = Inr (normalized (with_abstract []))
   \<and> map_of (normalized (with_abstract [])) ''abstract'' = Some (JStr ''We study trees.'')"
proof -
  have off: "normalize_document repr_unused (with_abstract [(''keep_abstract'', JBool False)]) =
     Inr (normalized (with_abstract [(''keep_abstract'', JBool False)]))"
    by (simp add: normalized_def with_abstract_def normalize_defs)
  have on: "normalize_document repr_unused (with_abstract [(''keep_abstract'', JBool True)]) =
       Inr (normalized (with_abstract [(''keep_abstract'', JBool True)]))"
    by (simp add: normalized_def with_abstract_def normalize_defs)
  have none: "normalize_document repr_unused (with_abstract []) =
                Inr (normalized (with_abstract []))"
    by (simp add: normalized_def with_abstract_def normalize_defs)
  have "map_of (with_abstract [(''keep_abstract'', JBool False)]) ''keep_abstract'' =
          Some (JBool False)"
       "map_of (with_abstract [(''keep_abstract'', JBool True)]) ''keep_abstract'' =
          Some (JBool True)"
       "map_of (with_abstract []) ''keep_abstract'' = None"
       "map_of (with_abstract [(''keep_abstract'', JBool True)]) ''abstract'' =
          Some (JStr ''We study trees.'')"
       "map_of (with_abstract []) ''abstract'' = Some (JStr ''We study trees.'')"
    by (simp_all add: with_abstract_def)
  then show ?thesis
    using abstract_field [OF off] abstract_field [OF on] abstract_field [OF none] off on none
    by simp
qed

subsection \<open>The whole collection\<close>

lemma normalize_all_Inr:
  "normalize_all repr ds = Inr ns \<Longrightarrow>
   list_all2 (\<lambda>d n. normalize_document repr d = Inr n) ds ns"
proof (induction ds arbitrary: ns)
  case Nil
  then show ?case by simp
next
  case (Cons d ds)
  then show ?case by (auto split: sum.splits)
qed

lemma copy_data_Inr:
  assumes "copy_data repr s = Inr s'"
  obtains new where "normalize_all repr (original_collection s) = Inr new"
    and "s' = s\<lparr>filtered_collection := filtered_collection s @ new\<rparr>"
  using assms by (auto simp: copy_data_def split: sum.splits if_splits)

lemma normalized_authors_Doe:
  "normalize_document repr_unused (with_authors [''Doe'']) =
     Inr (normalized (with_authors [''Doe'']))"
  by (simp add: normalized_def with_authors_def normalize_defs)

lemma normalized_no_ids:
  "normalize_document repr_unused (with_ids []) = Inr (normalized (with_ids []))"
  by (simp add: normalized_def with_ids_def normalize_defs)

text \<open>
  C9. A run of \<open>copy_data\<close> that ends normally over a staging collection that is not
  empty leaves the staging collection as it was and appends to the destination one
  normalized document for each staged document, in their order. A second run over the
  unchanged staging collection appends the same documents once more: the destination
  has grown by twice the size of the staging collection, and nothing is removed as a
  duplicate.
\<close>

theorem copy_data_appends_again:
  assumes "copy_data repr s = Inr s'" and "original_collection s \<noteq> []"
  shows "\<exists>new. list_all2 (\<lambda>d n. normalize_document repr d = Inr n) (original_collection s) new
             \<and> length new = length (original_collection s)
             \<and> original_collection s' = original_collection s
             \<and> filtered_collection s' = filtered_collection s @ new
             \<and> copy_data repr s' =
                 Inr (s'\<lparr>filtered_collection := filtered_collection s @ new @ new\<rparr>)"
proof -
  from assms(1) obtain new where new: "normalize_all repr (original_collection s) = Inr new"
    and s': "s' = s\<lparr>filtered_collection := filtered_collection s @ new\<rparr>"
    by (rule copy_data_Inr)
  have all: "list_all2 (\<lambda>d n. normalize_document repr d = Inr n) (original_collection s) new"
    using new by (rule normalize_all_Inr)
  then have len: "length new = length (original_collection s)"
    by (simp add: list_all2_lengthD)
  with assms(2) have ne: "new \<noteq> []" by auto
  have "copy_data repr s' = Inr (s'\<lparr>filtered_collection := filtered_collection s @ new @ new\<rparr>)"
    using new ne by (simp add: copy_data_def s')
  with all len show ?thesis by (intro exI [of _ new]) (simp add: s')
qed

text \<open>
  Two staged documents and a destination that holds one document already: after one
  run it holds three, after two runs five.
\<close>

theorem copy_data_appends_again_witness:
  "copy_data repr_unused (ahu_init [with_authors [''Doe''], with_ids []] [with_pages []]) =
     Inr (ahu_init [with_authors [''Doe''], with_ids []]
            [with_pages [], normalized (with_authors [''Doe'']), normalized (with_ids [])])
   \<and> original_collection (ahu_init [with_authors [''Doe''], with_ids []] [with_pages []]) \<noteq> []
   \<and> copy_data repr_unused
        (ahu_init [with_authors [''Doe''], with_ids []]
           [with_pages [], normalized (with_authors [''Doe'']), normalized (with_ids [])]) =
     Inr (ahu_init [with_authors [''Doe''], with_ids []]
            [with_pages [], normalized (with_authors [''Doe'']), normalized (with_ids []),
             normalized (with_authors [''Doe'']), normalized (with_ids [])])"
proof -
  have run: "copy_data repr_unused
       (ahu_init [with_authors [''Doe''], with_ids []] [with_pages []]) =
     Inr (ahu_init [with_authors [''Doe''], with_ids []]
            [with_pages [], normalized (with_authors [''Doe'']), normalized (with_ids [])])"
    by (simp add: copy_data_def ahu_init_def normalized_authors_Doe normalized_no_ids)
  have ne: "original_collection (ahu_init [with_authors [''Doe''], with_ids []] [with_pages []])
              \<noteq> []"
    by (simp add: ahu_init_def)
  from copy_data_appends_again [OF run ne] obtain new where
    new: "filtered_collection (ahu_init [with_authors [''Doe''], with_ids []]
            [with_pages [], normalized (with_authors [''Doe'']), normalized (with_ids [])]) =
          filtered_collection (ahu_init [with_authors [''Doe''], with_ids []] [with_pages []]) @ new"
    and again: "copy_data repr_unused
        (ahu_init [with_authors [''Doe''], with_ids []]
           [with_pages [], normalized (with_authors [''Doe'']), normalized (with_ids [])]) =
        Inr ((ahu_init [with_authors [''Doe''], with_ids []]
           [with_pages [], normalized (with_authors [''Doe'']), normalized (with_ids [])])
             \<lparr>filtered_collection :=
                filtered_collection
                  (ahu_init [with_authors [''Doe''], with_ids []] [with_pages []]) @ new @ new\<rparr>)"
    by blast
  from new have "new = [normalized (with_authors [''Doe'']), normalized (with_ids [])]"
    by (simp add: ahu_init_def)
  with again run ne show ?thesis by (simp add: ahu_init_def)
qed

lemma normalize_document_same_fields:
  assumes "same_fields d d'"
  shows "normalize_document repr d = normalize_document repr d'"
proof -
  from assms have eq:
    "map_of d ''abstract'' = map_of d' ''abstract''"
    "map_of d ''keep_abstract'' = map_of d' ''keep_abstract''"
    "map_of d ''source'' = map_of d' ''source''"
    "map_of d ''titles'' = map_of d' ''titles''"
    "map_of d ''authors'' = map_of d' ''authors''"
    "map_of d ''year_published'' = map_of d' ''year_published''"
    "map_of d ''bibliographic_info'' = map_of d' ''bibliographic_info''"
    "map_of d ''external_ids'' = map_of d' ''external_ids''"
    by (simp_all add: same_fields_def)
  have "derive_abstract d = derive_abstract d'"
    by (simp add: derive_abstract_def doc_get_def eq)
  moreover have "derive_journal d = derive_journal d'"
    by (simp add: derive_journal_def doc_get_def eq)
  moreover have "derive_publisher d = derive_publisher d'"
    by (simp add: derive_publisher_def publisher_try_def doc_get_def eq)
  moreover have "titles_field d k = titles_field d' k" for k
    by (simp add: titles_field_def doc_get_def eq)
  moreover have "derive_author d = derive_author d'"
    by (simp add: derive_author_def doc_get_def eq)
  moreover have "doc_get d ''year_published'' (JStr []) = doc_get d' ''year_published'' (JStr [])"
    by (simp add: doc_get_def eq)
  moreover have "bibliographic_field d k = bibliographic_field d' k" for k
    by (simp add: bibliographic_field_def eq)
  moreover have "derive_ids d = derive_ids d'"
    by (simp add: derive_ids_def eq)
  ultimately show ?thesis
    by (simp add: normalize_document_def)
qed

lemma normalize_all_same_fields:
  "list_all2 same_fields ds ds' \<Longrightarrow> normalize_all repr ds = normalize_all repr ds'"
proof (induction ds ds' rule: list_all2_induct)
  case Nil
  then show ?case by simp
next
  case (Cons d ds d' ds')
  then show ?case
    by (simp add: normalize_document_same_fields [of d d'] split: sum.splits)
qed

text \<open>
  C10. Two runs of \<open>copy_data\<close> over staging collections that hold, in the same order,
  documents with the same values for the keys that are read, write the same: both end
  with the same exception, or both append the same sequence of normalized documents,
  whatever the destination collections held before. Equal staging collections are a
  case of this.
\<close>

theorem copy_data_deterministic:
  assumes "list_all2 same_fields (original_collection s1) (original_collection s2)"
  shows "written repr s1 = written repr s2"
  using normalize_all_same_fields [OF assms, of repr]
  by (auto simp: written_def copy_data_def split: sum.splits)

text \<open>
  The same staged document, once with its keys in another order, copied to an empty
  destination and to one that holds a document already.
\<close>

theorem copy_data_deterministic_witness:
  "list_all2 same_fields
     (original_collection (ahu_init [with_authors [''Doe'']] []))
     (original_collection (ahu_init [rev (with_authors [''Doe''])] [with_pages []]))
   \<and> written repr_unused (ahu_init [with_authors [''Doe'']] []) =
       Inr [normalized (with_authors [''Doe''])]
   \<and> written repr_unused (ahu_init [rev (with_authors [''Doe''])] [with_pages []]) =
       Inr [normalized (with_authors [''Doe''])]"
proof -
  have same: "list_all2 same_fields
     (original_collection (ahu_init [with_authors [''Doe'']] []))
     (original_collection (ahu_init [rev (with_authors [''Doe''])] [with_pages []]))"
    by (simp add: ahu_init_def same_fields_def with_authors_def)
  have "written repr_unused (ahu_init [with_authors [''Doe'']] []) =
          Inr [normalized (with_authors [''Doe''])]"
    by (simp add: written_def copy_data_def ahu_init_def normalized_authors_Doe)
  with copy_data_deterministic [OF same, of repr_unused] same show ?thesis by simp
qed

subsection \<open>A staged document without bibliographic\_info\<close>

text \<open>
  C2. The first product of the example page is a Source Record without
  \<open>bibliographic_info\<close>. \<open>fetch_data\<close> stages it; \<open>copy_data\<close> then ends with a
  \<open>KeyError\<close> at \<open>document['bibliographic_info']\<close> and writes nothing, also for the
  staged documents that could be normalized. An empty \<open>titles\<close> list ends it with an
  \<open>IndexError\<close>. A document that has an empty \<open>bibliographic_info\<close> and nothing else
  is normalized: every other part may be missing.
\<close>

theorem copy_data_missing_bibliographic_info:
  "source_record (product ''Trees'' [id_entry ''doi'' ''10.1/x''])
   \<and> fetch_entry (product ''Trees'' [id_entry ''doi'' ''10.1/x'']) [] =
       (None, [staged (product ''Trees'' [id_entry ''doi'' ''10.1/x''])])
   \<and> normalize_document repr (staged (product ''Trees'' [id_entry ''doi'' ''10.1/x''])) =
       Inl KeyError
   \<and> copy_data repr
       (ahu_init [with_ids [], staged (product ''Trees'' [id_entry ''doi'' ''10.1/x''])] []) =
       Inl KeyError
   \<and> normalize_document repr [(''titles'', JList []), (''bibliographic_info'', JObj [])] =
       Inl IndexError
   \<and> normalize_document repr [(''bibliographic_info'', JObj [])] =
       Inr [(''journal'', JStr []), (''publisher'', JStr []), (''country'', JStr []),
            (''title'', JStr []), (''author'', JStr []), (''year'', JStr []),
            (''volume'', JStr []), (''issue'', JStr []), (''page'', JStr []),
            (''language'', JStr []), (''abstract'', JStr []), (''doi'', JStr []),
            (''pmid'', JStr [])]"
proof -
  have r: "source_record (product ''Trees'' [id_entry ''doi'' ''10.1/x''])"
    by (simp add: source_record_def product_def id_entry_def)
  have f: "fetch_entry (product ''Trees'' [id_entry ''doi'' ''10.1/x'']) [] =
             (None, [staged (product ''Trees'' [id_entry ''doi'' ''10.1/x''])])"
    by (simp add: product_def id_entry_def staged_def fields_def)
  have n: "normalize_document repr (staged (product ''Trees'' [id_entry ''doi'' ''10.1/x''])) =
             Inl KeyError"
    by (simp add: product_def id_entry_def staged_def fields_def normalize_defs)
  have ok: "normalize_document repr (with_ids []) \<noteq> Inl e" for e
    by (simp add: with_ids_def normalize_defs)
  have c: "copy_data repr
       (ahu_init [with_ids [], staged (product ''Trees'' [id_entry ''doi'' ''10.1/x''])] []) =
       Inl KeyError"
    using ok by (simp add: copy_data_def ahu_init_def n split: sum.splits)
  have t: "normalize_document repr [(''titles'', JList []), (''bibliographic_info'', JObj [])] =
       Inl IndexError"
    by (simp add: normalize_defs)
  have b: "normalize_document repr [(''bibliographic_info'', JObj [])] =
       Inr [(''journal'', JStr []), (''publisher'', JStr []), (''country'', JStr []),
            (''title'', JStr []), (''author'', JStr []), (''year'', JStr []),
            (''volume'', JStr []), (''issue'', JStr []), (''page'', JStr []),
            (''language'', JStr []), (''abstract'', JStr []), (''doi'', JStr []),
            (''pmid'', JStr [])]"
    by (simp add: normalize_defs)
  from r f n c t b show ?thesis by simp
qed

end
